theory Spec2Isabelle
  imports Complex_Main "HOL-Library.Product_Lexorder"
begin

section \<open>Values, errors and input cells\<close>

text \<open>
  A float64 value of a numeric batch.  A finite value is given by the real number it
  denotes; \<open>Fin 0\<close> is the zero \<open>0.0\<close>, and \<open>NegZero\<close> is the zero with the sign bit set,
  \<open>-0.0\<close>.  The two infinities and NaN are constructors of their own.  The results of
  the arithmetic of the formatters are rounded to binary64 (see the next section).
\<close>

datatype fval = Fin real | NegZero | PInf | NInf | NaN

text \<open>
  The exceptions the formatters can raise.  Python raises \<open>ValueError\<close> for the first
  three: \<open>raise ValueError("Invalid unit")\<close> is the configuration error, numpy's
  "could not convert string to float" is the conversion error, and
  "invalid literal for int()" comes from a string-to-int cast.
\<close>

datatype error = ConfigurationError | ConversionError | InvalidLiteral | IndexError

text \<open>
  One element of the argument of \<open>nnumber\<close> and \<open>npercent\<close>, as
  \<open>np.asanyarray(number, dtype=float)\<close> sees it: a number, \<open>None\<close>, or an object numpy
  cannot coerce to a float (non-numeric text such as \<open>"abc"\<close>).
\<close>

datatype ncell = Num fval | Null | NonNumeric

fun coerce_float :: "ncell \<Rightarrow> error + fval" where
  "coerce_float (Num v) = Inr v"
| "coerce_float Null = Inr NaN"
| "coerce_float NonNumeric = Inl ConversionError"

fun asanyarray_float :: "ncell list \<Rightarrow> error + fval list" where
  "asanyarray_float [] = Inr []"
| "asanyarray_float (c # cs) =
     (case coerce_float c of
        Inl e \<Rightarrow> Inl e
      | Inr v \<Rightarrow> (case asanyarray_float cs of Inl e \<Rightarrow> Inl e | Inr vs \<Rightarrow> Inr (v # vs)))"

section \<open>Binary64 arithmetic\<close>

text \<open>Rounding to the nearest integer, ties to even.\<close>

definition round_half_even :: "real \<Rightarrow> int" where
  "round_half_even x =
     (let f = \<lfloor>x\<rfloor>; r = x - of_int f
      in if r < 1 / 2 then f else if 1 / 2 < r then f + 1 else if even f then f else f + 1)"

text \<open>
  The binary64 number nearest to a real number, ties to even, before the range check:
  53 significant bits, that is a multiple of \<open>2^(e - 52)\<close> for a number in the binade
  \<open>[2^e, 2^(e+1))\<close>, and the fixed spacing \<open>2^-1074\<close> of the subnormal numbers below
  \<open>2^-1022\<close>.
\<close>

definition round53 :: "real \<Rightarrow> real" where
  "round53 x =
     (if x = 0 then 0
      else (let e = max \<lfloor>log 2 \<bar>x\<bar>\<rfloor> (- 1022)
            in of_int (round_half_even (x * 2 powi (52 - e))) * 2 powi (e - 52)))"

text \<open>The largest finite binary64 number.\<close>

definition max_double :: real where
  "max_double = (2 ^ 53 - 1) * 2 ^ 971"

text \<open>
  The float64 result of an operation whose exact result is the real number \<open>x \<noteq> 0\<close>: the
  nearest binary64 number, an infinity when that is out of range, and the zero with the
  sign of \<open>x\<close> when \<open>x\<close> underflows.
\<close>

definition to_double :: "real \<Rightarrow> fval" where
  "to_double x =
     (let r = round53 x
      in if max_double < \<bar>r\<bar> then (if 0 < x then PInf else NInf)
         else if r = 0 \<and> x < 0 then NegZero
         else Fin r)"

text \<open>
  The product \<open>v * s\<close> of a float and a finite float \<open>s\<close>, rounded once.  A zero product
  has the sign of the exact one.
\<close>

fun fmul :: "fval \<Rightarrow> real \<Rightarrow> fval" where
  "fmul (Fin v) s =
     (if v = 0 \<or> s = 0 then (if (v < 0) = (s < 0) then Fin 0 else NegZero)
      else to_double (v * s))"
| "fmul NegZero s = (if s < 0 then Fin 0 else NegZero)"
| "fmul NaN s = NaN"
| "fmul PInf s = (if 0 < s then PInf else if s < 0 then NInf else NaN)"
| "fmul NInf s = (if 0 < s then NInf else if s < 0 then PInf else NaN)"

text \<open>
  The quotient \<open>v / s\<close> of a float and a finite float \<open>s \<noteq> 0\<close>, rounded once (the source
  divides by \<open>100.0\<close> only).
\<close>

fun fdiv :: "fval \<Rightarrow> real \<Rightarrow> fval" where
  "fdiv (Fin v) s =
     (if v = 0 then (if s < 0 then NegZero else Fin 0) else to_double (v / s))"
| "fdiv NegZero s = (if s < 0 then Fin 0 else NegZero)"
| "fdiv NaN s = NaN"
| "fdiv PInf s = (if s < 0 then NInf else PInf)"
| "fdiv NInf s = (if s < 0 then PInf else NInf)"

fun fabs :: "fval \<Rightarrow> fval" where
  "fabs (Fin v) = Fin \<bar>v\<bar>"
| "fabs NegZero = Fin 0"
| "fabs NaN = NaN"
| "fabs PInf = PInf"
| "fabs NInf = PInf"

text \<open>\<open>(x != 0) & np.isfinite(x)\<close>: the two zeros are equal to 0.\<close>

fun nonzero_finite :: "fval \<Rightarrow> bool" where
  "nonzero_finite (Fin v) = (v \<noteq> 0)"
| "nonzero_finite NegZero = False"
| "nonzero_finite NaN = False"
| "nonzero_finite PInf = False"
| "nonzero_finite NInf = False"

text \<open>
  \<open>np.log10\<close> on a positive finite float: the binary64 number nearest to the logarithm.
  (The library function is taken to round correctly; it is exact at the powers of ten.)
\<close>

definition np_log10 :: "real \<Rightarrow> real" where
  "np_log10 v = round53 (log 10 v)"

text \<open>
  \<open>np.clip(np.floor(np.log10(np.abs(v)) / 3).astype(int), 0, limit)\<close> for a non-zero
  finite \<open>v\<close>: the magnitude bucket of the value.  The logarithm and its quotient by 3
  are floats, each rounded.
\<close>

definition magnitude :: "nat \<Rightarrow> real \<Rightarrow> nat" where
  "magnitude limit v =
     nat (min (int limit) (max 0 \<lfloor>round53 (np_log10 \<bar>v\<bar> / 3)\<rfloor>))"

fun bucket :: "nat \<Rightarrow> fval \<Rightarrow> nat" where
  "bucket limit (Fin v) = magnitude limit v"
| "bucket limit NegZero = 0"
| "bucket limit NaN = 0"
| "bucket limit PInf = 0"
| "bucket limit NInf = 0"

text \<open>
  Comparisons of a float with a finite number; every comparison with NaN is false, and
  \<open>-0.0\<close> compares as 0.
\<close>

fun f_gt :: "fval \<Rightarrow> real \<Rightarrow> bool" where
  "f_gt (Fin v) r = (r < v)"
| "f_gt NegZero r = (r < 0)"
| "f_gt PInf r = True"
| "f_gt NInf r = False"
| "f_gt NaN r = False"

fun f_ge :: "fval \<Rightarrow> real \<Rightarrow> bool" where
  "f_ge (Fin v) r = (r \<le> v)"
| "f_ge NegZero r = (r \<le> 0)"
| "f_ge PInf r = True"
| "f_ge NInf r = False"
| "f_ge NaN r = False"

fun f_le :: "fval \<Rightarrow> real \<Rightarrow> bool" where
  "f_le (Fin v) r = (v \<le> r)"
| "f_le NegZero r = (0 \<le> r)"
| "f_le PInf r = False"
| "f_le NInf r = True"
| "f_le NaN r = False"

fun f_eq :: "fval \<Rightarrow> real \<Rightarrow> bool" where
  "f_eq (Fin v) r = (v = r)"
| "f_eq NegZero r = (0 = r)"
| "f_eq PInf r = False"
| "f_eq NInf r = False"
| "f_eq NaN r = False"

section \<open>Python's fixed-point float formatting\<close>

definition digit_char :: "nat \<Rightarrow> char" where
  "digit_char n = ''0123456789'' ! n"

fun dec_digits :: "nat \<Rightarrow> string" where
  "dec_digits n =
     (if n < 10 then [digit_char n] else dec_digits (n div 10) @ [digit_char (n mod 10)])"

declare dec_digits.simps [simp del]

text \<open>The \<open>,\<close> option of the format mini-language: groups of three from the right.\<close>

fun group3 :: "string \<Rightarrow> string" where
  "group3 s =
     (if length s \<le> 3 then s
      else group3 (take (length s - 3) s) @ '','' @ drop (length s - 3) s)"

declare group3.simps [simp del]

definition pad_left :: "nat \<Rightarrow> string \<Rightarrow> string" where
  "pad_left w s = replicate (w - length s) CHR ''0'' @ s"

text \<open>
  The digits of \<open>format(v, "[,].<d>f")\<close> for the absolute value \<open>a\<close> of a finite \<open>v\<close>: the
  exact value is rounded to \<open>d\<close> decimals, ties to even; integer digits (grouped when
  \<open>comma\<close>), and \<open>d\<close> decimals after a point when \<open>d > 0\<close>.
\<close>

definition format_digits :: "bool \<Rightarrow> nat \<Rightarrow> real \<Rightarrow> string" where
  "format_digits comma d a =
     (let r = nat (round_half_even (a * 10 ^ d));
          ip = dec_digits (r div 10 ^ d);
          fp = pad_left d (dec_digits (r mod 10 ^ d))
      in (if comma then group3 ip else ip) @ (if d = 0 then '''' else ''.'' @ fp))"

text \<open>
  \<open>format(v, "[+][,].<d>f")\<close> for a finite \<open>v \<noteq> -0.0\<close>: the sign, then the digits.  A
  negative value keeps its sign when it rounds to zero.
\<close>

definition format_fixed :: "bool \<Rightarrow> bool \<Rightarrow> nat \<Rightarrow> real \<Rightarrow> string" where
  "format_fixed force_sign comma d v =
     (if v < 0 then ''-'' else if force_sign then ''+'' else '''') @ format_digits comma d \<bar>v\<bar>"

fun py_format :: "bool \<Rightarrow> bool \<Rightarrow> nat \<Rightarrow> fval \<Rightarrow> string" where
  "py_format force_sign comma d (Fin v) = format_fixed force_sign comma d v"
| "py_format force_sign comma d NegZero = ''-'' @ format_digits comma d 0"
| "py_format force_sign comma d NaN = (if force_sign then ''+nan'' else ''nan'')"
| "py_format force_sign comma d PInf = (if force_sign then ''+inf'' else ''inf'')"
| "py_format force_sign comma d NInf = ''-inf''"

section \<open>Array helpers\<close>

text \<open>\<open>list.index(x)\<close>: the first position of \<open>x\<close> (the length when absent).\<close>

fun index_of :: "'a list \<Rightarrow> 'a \<Rightarrow> nat" where
  "index_of [] y = 0"
| "index_of (x # xs) y = (if x = y then 0 else Suc (index_of xs y))"

text \<open>
  The order \<open>np.unique\<close> sorts floats by, which is also its equality: \<open>-inf\<close>, the finite
  values (\<open>0.0\<close> and \<open>-0.0\<close> are equal), \<open>inf\<close>, and NaN last (all NaNs collapse into one
  entry).
\<close>

fun fkey :: "fval \<Rightarrow> nat \<times> real" where
  "fkey NInf = (0, 0)"
| "fkey (Fin r) = (1, r)"
| "fkey NegZero = (1, 0)"
| "fkey PInf = (2, 0)"
| "fkey NaN = (3, 0)"

text \<open>The first element of \<open>x\<close> that is equal to \<open>v\<close>.\<close>

definition first_equal :: "fval list \<Rightarrow> fval \<Rightarrow> fval" where
  "first_equal x v = (case find (\<lambda>w. fkey w = fkey v) x of Some w \<Rightarrow> w | None \<Rightarrow> v)"

text \<open>
  \<open>np.unique(x, return_inverse=True)\<close>: the sorted distinct values and the inverse map.
  Equal values are one entry, so \<open>0.0\<close> and \<open>-0.0\<close> are merged when \<open>x\<close> holds both.  Which
  of the two then stands in \<open>uvals\<close> is left to numpy's sort; a stable sort keeps the one
  that comes first in \<open>x\<close>, as here.
\<close>

definition np_unique :: "fval list \<Rightarrow> fval list \<times> nat list" where
  "np_unique x =
     (let uvals = sort_key fkey (remdups (map (first_equal x) x))
      in (uvals, map (\<lambda>v. index_of uvals (first_equal x v)) x))"

text \<open>\<open>np.char.replace(a, old, new)\<close> for a one-character \<open>old\<close>, on one element.\<close>

fun char_replace :: "string \<Rightarrow> char \<Rightarrow> string \<Rightarrow> string" where
  "char_replace [] old new = []"
| "char_replace (c # cs) old new =
     (if c = old then new @ char_replace cs old new else c # char_replace cs old new)"

text \<open>\<open>np.bincount\<close> of a non-empty list of naturals, and \<open>np.argmax\<close> (first maximum).\<close>

definition bincount :: "nat list \<Rightarrow> nat list" where
  "bincount mx = map (\<lambda>k. count_list mx k) [0 ..< Suc (Max (set mx))]"

definition argmax :: "nat list \<Rightarrow> nat" where
  "argmax counts = index_of counts (Max (set counts))"

text \<open>
  Modelled from the spec: \<open>_sandwich\<close> of \<open>utils.py\<close> is not among the sources.  Section
  4.2 of the specification has the formatter "wrap with prefix/suffix"; the tests expect
  \<open>"USD 1.2 K Only"\<close> for prefix \<open>"USD "\<close> and suffix \<open>" Only"\<close>.
\<close>

definition sandwich :: "string list \<Rightarrow> string \<Rightarrow> string \<Rightarrow> string list" where
  "sandwich xs prefix suffix = map (\<lambda>x. prefix @ x @ suffix) xs"

section \<open>numbers.py: nnumber\<close>

text \<open>\<open>unit_labels.get(key, default)\<close>\<close>

definition dict_get :: "(string \<rightharpoonup> string) \<Rightarrow> string \<Rightarrow> string \<Rightarrow> string" where
  "dict_get d k dflt = (case d k of None \<Rightarrow> dflt | Some v \<Rightarrow> v)"

definition default_unit_labels :: "string \<rightharpoonup> string" where
  "default_unit_labels =
     [''thousand'' \<mapsto> ''K'', ''million'' \<mapsto> ''Mn'', ''billion'' \<mapsto> ''Bn'', ''trillion'' \<mapsto> ''Tn'']"

definition unit_names :: "(string \<rightharpoonup> string) \<Rightarrow> string list" where
  "unit_names unit_labels =
     ['''', dict_get unit_labels ''thousand'' ''K'', dict_get unit_labels ''million'' ''Mn'',
      dict_get unit_labels ''billion'' ''Bn'', dict_get unit_labels ''trillion'' ''Tn'']"

text \<open>
  \<open>factors = [1, 1e-3, 1e-6, 1e-9, 1e-12]\<close>: a float literal is the binary64 number
  nearest to the decimal number written.
\<close>

definition factors :: "real list" where
  "factors = [1, round53 (1 / 10 ^ 3), round53 (1 / 10 ^ 6), round53 (1 / 10 ^ 9),
              round53 (1 / 10 ^ 12)]"

text \<open>The \<open>unit == 'auto'\<close> branch: the mode of the magnitudes of the array it is given.\<close>

definition auto_unit_idx :: "nat \<Rightarrow> fval list \<Rightarrow> nat" where
  "auto_unit_idx limit x_flat =
     (let nonzero = filter nonzero_finite x_flat
      in if nonzero = [] then 0 else argmax (bincount (map (bucket limit) nonzero)))"

text \<open>
  The \<open>if unit == 'auto' ... elif ... else raise\<close> chain: \<open>(fixed_unit, final_unit_idx)\<close>,
  or the configuration error.
\<close>

definition select_unit :: "string \<Rightarrow> string list \<Rightarrow> fval list \<Rightarrow> error + (bool \<times> nat)" where
  "select_unit unit labels x_flat =
     (if unit = ''auto'' then Inr (True, auto_unit_idx (length labels - 1) x_flat)
      else if unit = ''custom'' then Inr (False, 0)
      else if unit \<in> set labels then Inr (True, index_of labels unit)
      else Inl ConfigurationError)"

text \<open>The separator swap on the formatted array.\<close>

definition swap_separator :: "string \<Rightarrow> string list \<Rightarrow> string list" where
  "swap_separator thousand_separator formatted_arr =
     (if thousand_separator = '','' then formatted_arr
      else if thousand_separator = ''.'' then
        map (\<lambda>s. char_replace s CHR ''X'' ''.'')
          (map (\<lambda>s. char_replace s CHR ''.'' '','')
            (map (\<lambda>s. char_replace s CHR '','' ''X'') formatted_arr))
      else map (\<lambda>s. char_replace s CHR '','' thousand_separator) formatted_arr)"

definition add_unit_labels :: "string list \<Rightarrow> string list \<Rightarrow> string list" where
  "add_unit_labels formatted_arr unit_lbls =
     (let has_unit = map (\<lambda>l. 0 < length l) unit_lbls
      in if list_ex id has_unit
         then map2 (@) formatted_arr
                (map2 (\<lambda>h l. if h then '' '' @ l else '''') has_unit unit_lbls)
         else formatted_arr)"

definition nnumber ::
  "ncell list \<Rightarrow> nat \<Rightarrow> string \<Rightarrow> (string \<rightharpoonup> string) \<Rightarrow> string \<Rightarrow> string \<Rightarrow> string
     \<Rightarrow> error + string list" where
  "nnumber number digits unit unit_labels prefix suffix thousand_separator =
     (let labels = unit_names unit_labels
      in case asanyarray_float number of
           Inl e \<Rightarrow> Inl e
         | Inr x_flat \<Rightarrow>
            (case select_unit unit labels x_flat of
               Inl e \<Rightarrow> Inl e
             | Inr (fixed_unit, final_unit_idx) \<Rightarrow>
                (let (uvals, inverse_map) = np_unique x_flat;
                     indices = (if fixed_unit then replicate (length uvals) final_unit_idx
                                else map (\<lambda>v. if nonzero_finite v
                                               then bucket (length labels - 1) v else 0) uvals);
                     scales = map (\<lambda>i. factors ! i) indices;
                     unit_lbls = map (\<lambda>i. labels ! i) indices;
                     scaled_vals = map2 fmul uvals scales;
                     formatted_list = map (py_format False True digits) scaled_vals;
                     formatted_arr = swap_separator thousand_separator formatted_list;
                     formatted_uvals = add_unit_labels formatted_arr unit_lbls;
                     formatted_uvals = (if 0 < length prefix \<or> 0 < length suffix
                                        then sandwich formatted_uvals prefix suffix
                                        else formatted_uvals)
                 in Inr (map (\<lambda>i. formatted_uvals ! i) inverse_map))))"

text \<open>
  What the array pipeline of \<open>nnumber\<close> does to one value whose unit index is \<open>i\<close>:
  the separator swap on one string, and the whole rendering of one value.  These
  two are not source functions; the lemmas below show that \<open>nnumber\<close> computes them
  element by element.
\<close>

definition swap1 :: "string \<Rightarrow> string \<Rightarrow> string" where
  "swap1 sep s =
     (if sep = '','' then s
      else if sep = ''.'' then
        char_replace (char_replace (char_replace s CHR '','' ''X'') CHR ''.'' '','') CHR ''X'' ''.''
      else char_replace s CHR '','' sep)"

definition render ::
  "nat \<Rightarrow> string list \<Rightarrow> string \<Rightarrow> string \<Rightarrow> string \<Rightarrow> nat \<Rightarrow> fval \<Rightarrow> string" where
  "render digits labels sep pre suf i v =
     (let s = swap1 sep (py_format False True digits (fmul v (factors ! i)));
          s = s @ (if 0 < length (labels ! i) then '' '' @ labels ! i else '''')
      in if 0 < length pre \<or> 0 < length suf then pre @ s @ suf else s)"

section \<open>numbers.py: npercent\<close>

text \<open>The \<open>if show_growth_factor:\<close> block: the growth label of every element.\<close>

definition growth_labels :: "fval list \<Rightarrow> string list" where
  "growth_labels x =
     (let gtemp = map (\<lambda>v. fdiv v 100) x;
          gtemp_abs = map fabs gtemp;
          g_fmt = map (py_format False False 1) gtemp_abs;
          growth_lbl = map (\<lambda>g. '' ('' @ g @ ''x Growth)'') g_fmt;
          drop_lbl = map (\<lambda>g. '' ('' @ g @ ''x Drop)'') g_fmt;
          small_lbl = map (\<lambda>g. if f_gt g 0 then '' (Growth)'' else '' (Drop)'') gtemp;
          small_lbl = map2 (\<lambda>g s. if f_eq g 0 then '' (Flat)'' else s) gtemp small_lbl;
          f_lbl = map2 (\<lambda>g (d, s). if f_le g (- 1) then d else s) gtemp (zip drop_lbl small_lbl);
          f_lbl = map2 (\<lambda>g (gr, f). if f_ge g 1 then gr else f) gtemp (zip growth_lbl f_lbl)
      in f_lbl)"

text \<open>
  The \<open>if show_bps:\<close> block.  It ends with the statement
  \<open>extras_arr = np.char.add(extras_arr, bps_lbl)\<close> written twice (lines 215 and 217).
\<close>

definition add_bps :: "fval list \<Rightarrow> string list \<Rightarrow> string list" where
  "add_bps x extras_arr =
     (let bps = map (\<lambda>v. fmul v 100) x;
          bps_list = map (\<lambda>b. if \<not> f_eq b 0 then py_format True False 0 b else ''0'') bps;
          bps_lbl = map (\<lambda>b. '' ('' @ b @ '' bps)'') bps_list;
          extras_arr = map2 (@) extras_arr bps_lbl;
          extras_arr = map2 (@) extras_arr bps_lbl
      in extras_arr)"

definition npercent ::
  "ncell list \<Rightarrow> bool \<Rightarrow> nat \<Rightarrow> bool \<Rightarrow> bool \<Rightarrow> bool \<Rightarrow> error + string list" where
  "npercent percent is_ratio digits show_plus_sign show_growth_factor show_bps =
     (case asanyarray_float percent of
        Inl e \<Rightarrow> Inl e
      | Inr x0 \<Rightarrow>
         (let x = (if is_ratio then map (\<lambda>v. fmul v 100) x0 else x0)
          in if length x = 0 then Inr []
             else
              (let s_list = map (py_format False False digits) x;
                   s_arr = (if show_plus_sign
                            then map2 (\<lambda>v s. if f_gt v 0 then ''+'' @ s else s) x s_list
                            else s_list);
                   s_arr = map (\<lambda>s. s @ ''%'') s_arr
               in if show_growth_factor \<or> show_bps then
                    (let extras_arr = replicate (length x) '''';
                         extras_arr = (if show_growth_factor
                                       then map2 (@) extras_arr (growth_labels x)
                                       else extras_arr);
                         extras_arr = (if show_bps then add_bps x extras_arr else extras_arr)
                     in Inr (map2 (@) s_arr extras_arr))
                  else Inr s_arr)))"

section \<open>utils.py: the deduplicating decorator\<close>



section \<open>numpy's datetime64 and its ISO 8601 strings\<close>

text \<open>
  A datetime64 value: not-a-time, or a count of units (days for \<open>datetime64[D]\<close>,
  seconds for \<open>datetime64[s]\<close>) since 1970-01-01.  numpy holds the count in 64 bits: a
  valid count lies between \<open>-2^63 + 1\<close> and \<open>2^63 - 1\<close> (the theorems say so where it
  matters).
\<close>

datatype dt64 = NaT | DT int

text \<open>
  One element of the argument of \<open>nday\<close>, \<open>ndate\<close> and \<open>ntimestamp\<close>, as the cast
  \<open>astype('datetime64[D]')\<close> or \<open>astype('datetime64[s]')\<close> sees it: a value that becomes a
  valid instant (given by its count), a value that becomes NaT (\<open>None\<close>, NaT itself), or a
  value on which the cast raises (text that is no date, such as \<open>"invalid"\<close>).  An array
  that is already datetime64 has no element of the third kind.
\<close>

datatype dcell = Instant int | Missing | Unconvertible

fun cast_dt64 :: "dcell \<Rightarrow> dt64" where
  "cast_dt64 (Instant n) = DT n"
| "cast_dt64 Missing = NaT"
| "cast_dt64 Unconvertible = NaT"

text \<open>The cast of the whole array: \<open>None\<close> when it raises.\<close>

definition astype_datetime64 :: "dcell list \<Rightarrow> dt64 list option" where
  "astype_datetime64 cells =
     (if Unconvertible \<in> set cells then None else Some (map cast_dt64 cells))"

fun isnat :: "dt64 \<Rightarrow> bool" where
  "isnat NaT = True"
| "isnat (DT n) = False"

text \<open>\<open>a[mask]\<close> for \<open>mask = ~np.isnat(a)\<close>: the counts of the valid elements.\<close>

fun valid_values :: "dt64 list \<Rightarrow> int list" where
  "valid_values [] = []"
| "valid_values (NaT # ds) = valid_values ds"
| "valid_values (DT n # ds) = n # valid_values ds"

text \<open>\<open>result[mask] = values\<close>: the values go to the positions the mask selects, in order.\<close>

fun mask_assign :: "'a list \<Rightarrow> bool list \<Rightarrow> 'a list \<Rightarrow> 'a list" where
  "mask_assign [] ms vs = []"
| "mask_assign (r # rs) [] vs = r # rs"
| "mask_assign (r # rs) (m # ms) vs =
     (if m then (case vs of [] \<Rightarrow> r # rs | v # vs' \<Rightarrow> v # mask_assign rs ms vs')
      else r # mask_assign rs ms vs)"

text \<open>
  The proleptic Gregorian calendar as numpy computes it: the year and the day within
  the year of a day count (\<open>days_to_yearsdays\<close>), then the month and the day of the month
  from the table of month lengths.
\<close>

definition is_leapyear :: "int \<Rightarrow> bool" where
  "is_leapyear y =
     (if y mod 400 = 0 then True else if y mod 100 = 0 then False else y mod 4 = 0)"

definition days_to_yearsdays :: "int \<Rightarrow> int \<times> int" where
  "days_to_yearsdays daynum =
     (let d0 = (daynum - (365 * 30 + 7)) mod 146097;
          y0 = 400 * ((daynum - (365 * 30 + 7)) div 146097)
      in if 366 \<le> d0 then
           (let y1 = y0 + 100 * ((d0 - 1) div 36524); d1 = (d0 - 1) mod 36524
            in if 365 \<le> d1 then
                 (let y2 = y1 + 4 * ((d1 + 1) div 1461); d2 = (d1 + 1) mod 1461
                  in if 366 \<le> d2 then (y2 + (d2 - 1) div 365 + 2000, (d2 - 1) mod 365)
                     else (y2 + 2000, d2))
               else (y1 + 2000, d1))
         else (y0 + 2000, d0))"

definition month_lengths :: "bool \<Rightarrow> int list" where
  "month_lengths leap = [31, if leap then 29 else 28, 31, 30, 31, 30, 31, 31, 30, 31, 30, 31]"

fun month_and_day :: "int list \<Rightarrow> int \<Rightarrow> int \<Rightarrow> int \<times> int" where
  "month_and_day [] m d = (m, d + 1)"
| "month_and_day (l # ls) m d =
     (if d < l then (m, d + 1) else month_and_day ls (m + 1) (d - l))"

definition civil_from_days :: "int \<Rightarrow> int \<times> int \<times> int" where
  "civil_from_days daynum =
     (let (y, yd) = days_to_yearsdays daynum;
          (m, d) = month_and_day (month_lengths (is_leapyear y)) 1 yd
      in (y, m, d))"

text \<open>A non-negative integer with at least \<open>w\<close> digits (\<open>%0wd\<close>).\<close>

definition zero_pad :: "nat \<Rightarrow> int \<Rightarrow> string" where
  "zero_pad w n = pad_left w (dec_digits (nat n))"

text \<open>The year of an ISO string, C's \<open>%04d\<close>: the sign counts in the width.\<close>

definition year_str :: "int \<Rightarrow> string" where
  "year_str y = (if 0 \<le> y then zero_pad 4 y else ''-'' @ zero_pad 3 (- y))"

text \<open>\<open>np.datetime_as_string(a, unit='D')\<close> on one day count.\<close>

definition iso_date :: "int \<Rightarrow> string" where
  "iso_date daynum =
     (let (y, m, d) = civil_from_days daynum
      in year_str y @ ''-'' @ zero_pad 2 m @ ''-'' @ zero_pad 2 d)"

text \<open>\<open>np.datetime_as_string(a, unit='s')\<close> on one count of seconds.\<close>

definition iso_datetime :: "int \<Rightarrow> string" where
  "iso_datetime secs =
     (let sod = secs mod 86400
      in iso_date (secs div 86400) @ ''T'' @ zero_pad 2 (sod div 3600) @ '':'' @
         zero_pad 2 (sod mod 3600 div 60) @ '':'' @ zero_pad 2 (sod mod 60))"

section \<open>Strings, casts and indexing\<close>

text \<open>The slice \<open>s[a:b]\<close> for \<open>0 \<le> a \<le> b\<close>.\<close>

definition slice :: "nat \<Rightarrow> nat \<Rightarrow> string \<Rightarrow> string" where
  "slice a b s = take (b - a) (drop a s)"

definition digit_of :: "char \<Rightarrow> nat option" where
  "digit_of c = (if c \<in> set ''0123456789'' then Some (index_of ''0123456789'' c) else None)"

fun digits_value :: "nat \<Rightarrow> string \<Rightarrow> nat option" where
  "digits_value acc [] = Some acc"
| "digits_value acc (c # cs) =
     (case digit_of c of None \<Rightarrow> None | Some k \<Rightarrow> digits_value (10 * acc + k) cs)"

text \<open>
  The cast of a string to \<open>int\<close>: an optional sign and at least one digit, anything else
  raises.  (White space and underscores, which \<open>int()\<close> also accepts, do not occur in the
  strings cast here.)
\<close>

definition parse_int :: "string \<Rightarrow> error + int" where
  "parse_int s =
     (let body = (if s \<noteq> [] \<and> (hd s = CHR ''-'' \<or> hd s = CHR ''+'') then tl s else s)
      in if body = [] then Inl InvalidLiteral
         else (case digits_value 0 body of
                 None \<Rightarrow> Inl InvalidLiteral
               | Some n \<Rightarrow> Inr (if s \<noteq> [] \<and> hd s = CHR ''-'' then - int n else int n)))"

text \<open>\<open>a[i]\<close> on a numpy array: negative indices count from the end.\<close>

definition np_take :: "'a list \<Rightarrow> int \<Rightarrow> error + 'a" where
  "np_take a i =
     (let n = int (length a); j = (if i < 0 then n + i else i)
      in if 0 \<le> j \<and> j < n then Inr (a ! nat j) else Inl IndexError)"

text \<open>An array operation that raises on the first element that fails.\<close>

fun collect :: "(error + 'a) list \<Rightarrow> error + 'a list" where
  "collect [] = Inr []"
| "collect (r # rs) =
     (case r of
        Inl e \<Rightarrow> Inl e
      | Inr v \<Rightarrow> (case collect rs of Inl e \<Rightarrow> Inl e | Inr vs \<Rightarrow> Inr (v # vs)))"

definition bind_err :: "error + 'a \<Rightarrow> ('a \<Rightarrow> error + 'b) \<Rightarrow> error + 'b" where
  "bind_err r f = (case r of Inl e \<Rightarrow> Inl e | Inr v \<Rightarrow> f v)"

definition months_full :: "string list" where
  "months_full = ['''', ''Jan'', ''Feb'', ''Mar'', ''Apr'', ''May'', ''Jun'',
                  ''Jul'', ''Aug'', ''Sep'', ''Oct'', ''Nov'', ''Dec'']"

section \<open>dates.py\<close>

definition weekday_labels :: "string list" where
  "weekday_labels = [''Mon'', ''Tue'', ''Wed'', ''Thu'', ''Fri'', ''Sat'', ''Sun'']"

text \<open>
  The value an int64 operation leaves: the exact result modulo \<open>2^64\<close>, in the range
  \<open>-2^63 .. 2^63 - 1\<close> (numpy's integer arrays wrap around silently).
\<close>

definition wrap64 :: "int \<Rightarrow> int" where
  "wrap64 n = (n + 2 ^ 63) mod 2 ^ 64 - 2 ^ 63"

text \<open>
  \<open>_get_weekday_name_vec\<close>.  \<open>per_day\<close> is the number of units of the array in a day (1 for
  \<open>datetime64[D]\<close>, 86400 for \<open>datetime64[s]\<close>): the cast to days rounds down.  The day
  counts are an int64 array, and so is \<open>days + 3\<close>.
\<close>

definition get_weekday_name_vec :: "int \<Rightarrow> int list \<Rightarrow> string list" where
  "get_weekday_name_vec per_day dt =
     (let days = map (\<lambda>v. v div per_day) dt;
          idx = map (\<lambda>d. wrap64 (d + 3) mod 7) days
      in map (\<lambda>i. weekday_labels ! nat i) idx)"

text \<open>The five masked assignments to \<open>alias\<close>, in the order of the source, on one element.\<close>

definition relative_alias :: "int \<Rightarrow> string" where
  "relative_alias diff =
     (let alias = '''';
          alias = (if 2 \<le> diff \<and> diff \<le> 8 then ''Last '' else alias);
          alias = (if diff = 1 then ''Yesterday, '' else alias);
          alias = (if diff = 0 then ''Today, '' else alias);
          alias = (if diff = - 1 then ''Tomorrow, '' else alias);
          alias = (if - 8 \<le> diff \<and> diff \<le> - 2 then ''Coming '' else alias)
      in alias)"

text \<open>
  \<open>nday\<close>.  \<open>today\<close> is the day count \<open>np.datetime64('today')\<close> returns; the source reads it
  once, before the element-wise operations.  \<open>diff\<close> is the difference of the day counts:
  the int64 subtraction, the float quotient by one day and the cast back to int are exact
  for day counts below \<open>2^52\<close> in magnitude.
\<close>

definition nday :: "int \<Rightarrow> dcell list \<Rightarrow> bool \<Rightarrow> string list" where
  "nday today date show_relative_day =
     (if length date = 0 then []
      else case astype_datetime64 date of
             None \<Rightarrow> replicate (length date) ''NaT''
           | Some dt \<Rightarrow>
              (let mask = map (\<lambda>d. \<not> isnat d) dt;
                   result = replicate (length dt) ''NaT''
               in if \<not> list_ex id mask then result
                  else
                   (let valid_dates = valid_values dt;
                        day_str = get_weekday_name_vec 1 valid_dates;
                        day_str = (if show_relative_day
                                   then (let diff = map (\<lambda>d. today - d) valid_dates;
                                             alias = map relative_alias diff
                                         in map2 (@) alias day_str)
                                   else day_str)
                    in mask_assign result mask day_str)))"

text \<open>The strings of the valid dates, in the two forms of \<open>ndate\<close>.\<close>

definition ndate_strings :: "int list \<Rightarrow> bool \<Rightarrow> bool \<Rightarrow> error + string list" where
  "ndate_strings valid_dates show_weekday show_month_year =
     (let iso = map iso_date valid_dates
      in if show_month_year then
           bind_err (collect (map (\<lambda>s. parse_int (slice 5 7 s)) iso)) (\<lambda>mm.
           let yy = map (slice 2 4) iso
           in bind_err (collect (map (np_take months_full) mm)) (\<lambda>mon_str.
              Inr (map2 (@) (map (\<lambda>m. m @ [CHR 0x27]) mon_str) yy)))
         else
           (let yyyy = map (slice 0 4) iso
            in bind_err (collect (map (\<lambda>s. parse_int (slice 5 7 s)) iso)) (\<lambda>mm.
               let dd = map (slice 8 10) iso
               in bind_err (collect (map (np_take months_full) mm)) (\<lambda>mon_str.
                  let p1 = map (\<lambda>m. m @ '' '') mon_str;
                      p2 = map2 (@) p1 dd;
                      p3 = map (\<lambda>p. p @ '', '') p2;
                      s = map2 (@) p3 yyyy
                  in if show_weekday
                     then (let wd = get_weekday_name_vec 1 valid_dates;
                               w_part = map (\<lambda>w. '' ('' @ w @ '')'') wd
                           in Inr (map2 (@) s w_part))
                     else Inr s))))"

definition ndate :: "dcell list \<Rightarrow> bool \<Rightarrow> bool \<Rightarrow> error + string list" where
  "ndate date show_weekday show_month_year =
     (if length date = 0 then Inr []
      else case astype_datetime64 date of
             None \<Rightarrow> Inr (replicate (length date) ''NaT'')
           | Some dt \<Rightarrow>
              (let mask = map (\<lambda>d. \<not> isnat d) dt;
                   result = replicate (length dt) ''NaT''
               in if \<not> list_ex id mask then Inr result
                  else bind_err (ndate_strings (valid_values dt) show_weekday show_month_year)
                         (\<lambda>s. Inr (mask_assign result mask s))))"

text \<open>The 12-hour clock of \<open>ntimestamp\<close>: the two masked assignments on one hour.\<close>

definition hh_12_of :: "int \<Rightarrow> int" where
  "hh_12_of hh_int =
     (let h = (if hh_int = 0 then 12 else hh_int)
      in if 12 < h then h - 12 else h)"

definition hours_labels :: "string list" where
  "hours_labels = map (\<lambda>i. zero_pad 2 (int i)) [0 ..< 13]"

text \<open>
  The strings of the valid timestamps: \<open>parts_list\<close> is built in the order of the source
  and joined element by element.
\<close>

definition ntimestamp_strings ::
  "int list \<Rightarrow> bool \<Rightarrow> bool \<Rightarrow> bool \<Rightarrow> bool \<Rightarrow> bool \<Rightarrow> bool \<Rightarrow> error + string list" where
  "ntimestamp_strings valid_ts show_weekday show_date show_hours show_minutes show_seconds
       show_timezone =
     (let iso = map iso_datetime valid_ts
      in bind_err
           (if show_date then
              (let yyyy = map (slice 0 4) iso
               in bind_err (collect (map (\<lambda>s. parse_int (slice 5 7 s)) iso)) (\<lambda>mm.
                  let dd = map (slice 8 10) iso
                  in bind_err (collect (map (np_take months_full) mm)) (\<lambda>mon_str.
                     let d_str = map (\<lambda>m. m @ '' '') mon_str;
                         d_str = map2 (@) d_str dd;
                         d_str = map (\<lambda>p. p @ '', '') d_str;
                         d_str = map2 (@) d_str yyyy;
                         d_str = map (\<lambda>p. p @ '' '') d_str
                     in Inr [d_str])))
            else Inr [])
           (\<lambda>parts_list.
              let hh_str = map (slice 11 13) iso;
                  mm_str = map (slice 14 16) iso;
                  ss_str = map (slice 17 19) iso
              in bind_err (collect (map parse_int hh_str)) (\<lambda>hh_int.
                 let is_pm = map (\<lambda>h. 12 \<le> h) hh_int;
                     hh_12 = map hh_12_of hh_int
                 in bind_err (collect (map (np_take hours_labels) hh_12)) (\<lambda>hh_12_str.
                    let parts_list = (if show_hours
                                      then parts_list @ [map (\<lambda>h. h @ ''H'') hh_12_str]
                                      else parts_list);
                        parts_list = (if show_minutes
                                      then parts_list @ [map (\<lambda>m. '' '' @ m @ ''M'') mm_str]
                                      else parts_list);
                        parts_list = (if show_seconds
                                      then parts_list @ [map (\<lambda>s. '' '' @ s @ ''S'') ss_str]
                                      else parts_list);
                        ampm_arr = map (\<lambda>p. if p then '' PM'' else '' AM'') is_pm;
                        parts_list = parts_list @ [ampm_arr];
                        combined = foldl (map2 (@)) (hd parts_list) (tl parts_list)
                    in if show_weekday
                       then (let wd = get_weekday_name_vec 86400 valid_ts;
                                 w_part = map (\<lambda>w. '' ('' @ w @ '')'') wd
                             in Inr (map2 (@) combined w_part))
                       else Inr combined))))"

definition ntimestamp ::
  "dcell list \<Rightarrow> bool \<Rightarrow> bool \<Rightarrow> bool \<Rightarrow> bool \<Rightarrow> bool \<Rightarrow> bool \<Rightarrow> error + string list" where
  "ntimestamp timestamp show_weekday show_date show_hours show_minutes show_seconds
       show_timezone =
     (if length timestamp = 0 then Inr []
      else case astype_datetime64 timestamp of
             None \<Rightarrow> Inr (replicate (length timestamp) ''NaT'')
           | Some ts \<Rightarrow>
              (let mask = map (\<lambda>d. \<not> isnat d) ts;
                   result = replicate (length ts) ''NaT''
               in if \<not> list_ex id mask then Inr result
                  else bind_err
                         (ntimestamp_strings (valid_values ts) show_weekday show_date show_hours
                            show_minutes show_seconds show_timezone)
                         (\<lambda>combined. Inr (mask_assign result mask combined))))"

text \<open>
  The float \<open>np.asanyarray(number, dtype=float)\<close> makes of one element that it can
  coerce (a helper for the lemmas, not a source function).
\<close>

definition to_float :: "ncell \<Rightarrow> fval" where
  "to_float c = (case c of Num v \<Rightarrow> v | Null \<Rightarrow> NaN | NonNumeric \<Rightarrow> NaN)"

text \<open>The token Python prints for a float that is not finite (a helper for the claims).\<close>

definition nonfinite_token :: "fval \<Rightarrow> string" where
  "nonfinite_token v =
     (case v of NaN \<Rightarrow> ''nan'' | PInf \<Rightarrow> ''inf'' | NInf \<Rightarrow> ''-inf'' | Fin r \<Rightarrow> ''''
      | NegZero \<Rightarrow> '''')"

text \<open>
  The batch holds both zeros, \<open>0.0\<close> and \<open>-0.0\<close>: the one case in which \<open>np.unique\<close> merges
  two values that are formatted differently (a helper for the claims).
\<close>

definition both_zeros :: "fval list \<Rightarrow> bool" where
  "both_zeros x = (Fin 0 \<in> set x \<and> NegZero \<in> set x)"






section \<open>Lemmas: gathering through an inverse map\<close>

lemma index_of_less: "y \<in> set xs \<Longrightarrow> index_of xs y < length xs"
  by (induction xs) auto

lemma nth_index_of: "y \<in> set xs \<Longrightarrow> xs ! index_of xs y = y"
  by (induction xs) auto


lemma fkey_eq:
  "fkey v = fkey w \<Longrightarrow> v = w \<or> (v = Fin 0 \<and> w = NegZero) \<or> (v = NegZero \<and> w = Fin 0)"
  by (cases v; cases w) auto

lemma first_equal_in:
  assumes "v \<in> set x"
  shows "first_equal x v \<in> set x" and "fkey (first_equal x v) = fkey v"
proof -
  from assms have "find (\<lambda>w. fkey w = fkey v) x \<noteq> None"
    by (auto simp: find_None_iff)
  then obtain w where w: "find (\<lambda>w. fkey w = fkey v) x = Some w" by auto
  then have "w \<in> set x \<and> fkey w = fkey v"
    by (auto simp: find_Some_iff)
  with w show "first_equal x v \<in> set x" and "fkey (first_equal x v) = fkey v"
    by (simp_all add: first_equal_def)
qed

lemma first_equal_nonzero:
  assumes "v \<in> set x" and "v \<noteq> Fin 0" and "v \<noteq> NegZero"
  shows "first_equal x v = v"
  using fkey_eq[OF first_equal_in(2)[OF assms(1)]] assms(2,3) by auto

lemma first_equal_id:
  assumes "v \<in> set x" and "\<not> both_zeros x"
  shows "first_equal x v = v"
  using fkey_eq[OF first_equal_in(2)[OF assms(1)]] first_equal_in(1)[OF assms(1)] assms
  by (auto simp: both_zeros_def)

lemma np_unique_gather:
  assumes "np_unique x = (u, iv)"
  shows "map (\<lambda>i. map g u ! i) iv = map (\<lambda>v. g (first_equal x v)) x"
proof -
  have u: "u = sort_key fkey (remdups (map (first_equal x) x))"
    and iv: "iv = map (\<lambda>v. index_of u (first_equal x v)) x"
    using assms by (auto simp: np_unique_def Let_def)
  have m: "first_equal x v \<in> set u" if "v \<in> set x" for v
    using that by (simp add: u)
  show ?thesis
    unfolding iv using m by (simp add: index_of_less nth_index_of)
qed

lemma map2_same: "map2 f (map g u) (map h u) = map (\<lambda>x. f (g x) (h x)) u"
  by (induction u) auto

section \<open>Lemmas: nnumber, element by element\<close>

lemma add_unit_labels_map:
  "add_unit_labels (map f u) (map l u) =
     map (\<lambda>v. f v @ (if 0 < length (l v) then '' '' @ l v else '''')) u"
proof (cases "list_ex id (map (\<lambda>l. 0 < length l) (map l u))")
  case True
  then show ?thesis
    by (simp add: add_unit_labels_def Let_def map2_same del: length_greater_0_conv)
next
  case False
  then have "\<And>v. v \<in> set u \<Longrightarrow> l v = []"
    by (auto simp: list_ex_iff)
  with False show ?thesis
    by (simp add: add_unit_labels_def Let_def del: length_greater_0_conv)
qed

lemma swap_separator_map: "swap_separator sep (map f u) = map (\<lambda>v. swap1 sep (f v)) u"
  by (simp add: swap_separator_def swap1_def)

lemma nnumber_first_equal:
  assumes "asanyarray_float number = Inr x"
    and "select_unit unit (unit_names ul) x = Inr (fixed, idx)"
  shows "nnumber number digits unit ul pre suf sep =
     Inr (map (\<lambda>v. render digits (unit_names ul) sep pre suf
               (if fixed then idx
                else if nonzero_finite (first_equal x v) then bucket 4 (first_equal x v) else 0)
               (first_equal x v)) x)"
proof -
  obtain u iv where ui: "np_unique x = (u, iv)" by (cases "np_unique x")
  define labels where "labels = unit_names ul"
  have len: "length labels - 1 = 4" by (simp add: labels_def unit_names_def)
  define ix where "ix = (\<lambda>v. if fixed then idx else if nonzero_finite v then bucket 4 v else 0)"
  have ind: "(if fixed then replicate (length u) idx
              else map (\<lambda>v. if nonzero_finite v then bucket (length labels - 1) v else 0) u)
             = map ix u"
    using len by (simp add: map_replicate_const ix_def)
  define fu where "fu = add_unit_labels
      (swap_separator sep (map (py_format False True digits)
         (map2 fmul u (map (\<lambda>i. factors ! i) (map ix u)))))
      (map (\<lambda>i. labels ! i) (map ix u))"
  have fu_eq: "fu = map (\<lambda>v. swap1 sep (py_format False True digits (fmul v (factors ! ix v)))
                        @ (if 0 < length (labels ! ix v) then '' '' @ labels ! ix v else [])) u"
  proof -
    have a: "map2 fmul u (map (\<lambda>i. factors ! i) (map ix u)) = map (\<lambda>v. fmul v (factors ! ix v)) u"
      using map2_same[of fmul "\<lambda>v. v" u "\<lambda>v. factors ! ix v"] by (simp add: o_def)
    show ?thesis
      unfolding fu_def a
      using add_unit_labels_map[of "\<lambda>v. swap1 sep (py_format False True digits (fmul v (factors ! ix v)))"
          u "\<lambda>v. labels ! ix v"]
      by (simp add: swap_separator_map o_def)
  qed
  define out where "out = (if 0 < length pre \<or> 0 < length suf then sandwich fu pre suf else fu)"
  have out_eq: "out = map (\<lambda>v. render digits labels sep pre suf (ix v) v) u"
    by (simp add: out_def fu_eq sandwich_def render_def Let_def del: length_greater_0_conv)
  have "nnumber number digits unit ul pre suf sep = Inr (map (\<lambda>i. out ! i) iv)"
    using assms ui
    by (simp add: nnumber_def Let_def ind out_def fu_def labels_def[symmetric]
        del: length_greater_0_conv)
  also have "map (\<lambda>i. out ! i) iv =
      map (\<lambda>v. render digits labels sep pre suf (ix (first_equal x v)) (first_equal x v)) x"
    unfolding out_eq by (rule np_unique_gather[OF ui])
  finally show ?thesis by (simp add: labels_def ix_def)
qed

lemma nnumber_render:
  assumes "asanyarray_float number = Inr x"
    and "select_unit unit (unit_names ul) x = Inr (fixed, idx)"
    and "\<not> both_zeros x"
  shows "nnumber number digits unit ul pre suf sep =
     Inr (map (\<lambda>v. render digits (unit_names ul) sep pre suf
               (if fixed then idx else if nonzero_finite v then bucket 4 v else 0) v) x)"
  unfolding nnumber_first_equal[OF assms(1,2)]
  using first_equal_id[OF _ assms(3)] by simp


section \<open>Lemmas: rounding to binary64\<close>

lemma rhe_of_int: "round_half_even (of_int m) = m"
  by (simp add: round_half_even_def)

lemma rhe_ge: "of_int m \<le> y \<Longrightarrow> m \<le> round_half_even y"
proof -
  assume "of_int m \<le> y"
  then have "m \<le> \<lfloor>y\<rfloor>" by (simp add: le_floor_iff)
  moreover have "\<lfloor>y\<rfloor> \<le> round_half_even y" by (simp add: round_half_even_def Let_def)
  ultimately show ?thesis by simp
qed

lemma rhe_le: "y \<le> of_int m \<Longrightarrow> round_half_even y \<le> m"
proof (cases "y = of_int \<lfloor>y\<rfloor>")
  case True
  assume "y \<le> of_int m"
  then have "\<lfloor>y\<rfloor> \<le> m" by (metis floor_mono floor_of_int)
  moreover have "round_half_even y = \<lfloor>y\<rfloor>"
    using True by (simp add: round_half_even_def Let_def)
  ultimately show ?thesis by simp
next
  case False
  assume a: "y \<le> of_int m"
  have "of_int \<lfloor>y\<rfloor> < y" using False of_int_floor_le[of y] by linarith
  with a have "of_int \<lfloor>y\<rfloor> < (of_int m :: real)" by linarith
  then have "\<lfloor>y\<rfloor> < m" by simp
  moreover have "round_half_even y \<le> \<lfloor>y\<rfloor> + 1" by (simp add: round_half_even_def Let_def)
  ultimately show ?thesis by linarith
qed



lemma floor_log2_eq:
  assumes "2 powi e \<le> \<bar>x\<bar>" and "\<bar>x\<bar> < 2 powi (e + 1)"
  shows "\<lfloor>log 2 \<bar>x\<bar>\<rfloor> = e"
proof -
  have p: "0 < \<bar>x\<bar>" using assms(1) zero_less_power_int[of "2::real" e] by linarith
  have a: "2 powr (of_int e) = (2::real) powi e"
    by (rule powr_real_of_int') simp_all
  have b: "2 powr (of_int e + 1) = (2::real) powi (e + 1)"
    using powr_real_of_int'[of "2::real" "e + 1"] by simp
  show ?thesis
    using floor_log_eq_powr_iff[of "\<bar>x\<bar>" 2 e] p assms by (simp add: a b)
qed


lemma round53_binade:
  assumes "2 powi e \<le> \<bar>x\<bar>" and "\<bar>x\<bar> < 2 powi (e + 1)" and "- 1022 \<le> e"
  shows "round53 x = of_int (round_half_even (x * 2 powi (52 - e))) * 2 powi (e - 52)"
proof -
  have p: "0 < \<bar>x\<bar>" using assms(1) zero_less_power_int[of "2::real" e] by linarith
  then have nz: "x \<noteq> 0" by auto
  have "max \<lfloor>log 2 \<bar>x\<bar>\<rfloor> (- 1022) = e"
    using floor_log2_eq[OF assms(1,2)] assms(3) by simp
  then show ?thesis using nz by (simp add: round53_def Let_def)
qed


















lemma to_double_binade:
  assumes "2 powi e \<le> \<bar>x\<bar>" and "\<bar>x\<bar> < 2 powi (e + 1)" and "- 1022 \<le> e" and "e \<le> 1022"
  shows "to_double x = Fin (of_int (round_half_even (x * 2 powi (52 - e))) * 2 powi (e - 52))"
proof -
  define s where "s = (2::real) powi (52 - e)"
  define m where "m = round_half_even (x * s)"
  have sp: "0 < s" by (simp add: s_def)
  have r: "round53 x = of_int m * 2 powi (e - 52)"
    unfolding m_def s_def by (rule round53_binade[OF assms(1-3)])
  have pe: "(2::real) powi e * s = 2 ^ 52"
    using power_int_add[of "2::real" e "52 - e"] by (simp add: s_def)
  have pe1: "(2::real) powi (e + 1) * s = 2 ^ 53"
    using power_int_add[of "2::real" "e + 1" "52 - e"] by (simp add: s_def)
  have lo: "2 ^ 52 \<le> \<bar>x * s\<bar>"
    using mult_right_mono[OF assms(1), of s] sp pe by (simp add: abs_mult)
  have hi: "\<bar>x * s\<bar> < 2 ^ 53"
    using mult_strict_right_mono[OF assms(2) sp] sp pe1 by (simp add: abs_mult)
  have mb: "2 ^ 52 \<le> \<bar>m\<bar> \<and> \<bar>m\<bar> \<le> 2 ^ 53"
  proof (cases "0 \<le> x * s")
    case True
    with lo hi have a: "of_int (2 ^ 52) \<le> x * s" and b: "x * s \<le> of_int (2 ^ 53)" by simp_all
    have "2 ^ 52 \<le> m" unfolding m_def using a by (rule rhe_ge)
    moreover have "m \<le> 2 ^ 53" unfolding m_def using b by (rule rhe_le)
    ultimately show ?thesis by simp
  next
    case False
    with lo hi have a: "x * s \<le> of_int (- (2 ^ 52))" and b: "of_int (- (2 ^ 53)) \<le> x * s"
      by simp_all
    have "m \<le> - (2 ^ 52)" unfolding m_def using a by (rule rhe_le)
    moreover have "- (2 ^ 53) \<le> m" unfolding m_def using b by (rule rhe_ge)
    ultimately show ?thesis by simp
  qed
  have m0: "m \<noteq> 0" using mb by auto
  have r0: "round53 x \<noteq> 0" unfolding r using m0 by simp
  have "\<bar>round53 x\<bar> = of_int \<bar>m\<bar> * 2 powi (e - 52)"
    unfolding r by (simp add: abs_mult)
  also have "\<dots> \<le> of_int (2 ^ 53) * 2 powi (e - 52)"
    using mb by (intro mult_right_mono) (simp_all only: of_int_le_iff, simp_all)
  also have "\<dots> = 2 powi (e + 1)"
    using power_int_add[of "2::real" 53 "e - 52"] by (simp add: add.commute)
  also have "\<dots> \<le> 2 powi 1023"
    using assms(4) by (intro power_int_increasing) simp_all
  also have "\<dots> \<le> max_double" by (simp add: max_double_def)
  finally have "\<not> max_double < \<bar>round53 x\<bar>" by simp
  then show ?thesis
    using r0 by (simp add: to_double_def Let_def r m_def s_def)
qed

lemma factor_3: "round53 (1 / 10 ^ 3) = 1152921504606847 / 2 ^ 60"
  using round53_binade[of "- 10" "1 / 10 ^ 3"] by (simp add: round_half_even_def Let_def)

lemma factor_6: "round53 (1 / 10 ^ 6) = 4722366482869645 / 2 ^ 72"
  using round53_binade[of "- 20" "1 / 10 ^ 6"] by (simp add: round_half_even_def Let_def)

lemma factor_9: "round53 (1 / 10 ^ 9) = 4835703278458517 / 2 ^ 82"
  using round53_binade[of "- 30" "1 / 10 ^ 9"] by (simp add: round_half_even_def Let_def)

lemma factor_12: "round53 (1 / 10 ^ 12) = 4951760157141521 / 2 ^ 92"
  using round53_binade[of "- 40" "1 / 10 ^ 12"] by (simp add: round_half_even_def Let_def)





section \<open>Lemmas: coercion, magnitudes and the mode\<close>

text \<open>The factors, as fractions.\<close>

lemma factors_eval:
  "factors = [1, 1152921504606847 / 2 ^ 60, 4722366482869645 / 2 ^ 72,
              4835703278458517 / 2 ^ 82, 4951760157141521 / 2 ^ 92]"
  by (simp only: factors_def factor_3 factor_6 factor_9 factor_12)

text \<open>Rewrite rules that evaluate a rounded product in one of the binades named.\<close>

lemmas to_double_eval = to_double_binade[where e = "- 10"] to_double_binade[where e = "- 1"]
  to_double_binade[where e = 0]
  to_double_binade[where e = 1] to_double_binade[where e = 3] to_double_binade[where e = 6]
  to_double_binade[where e = 9]

lemmas fmt_eval = format_fixed_def format_digits_def round_half_even_def Let_def
  dec_digits.simps digit_char_def group3.simps pad_left_def

lemmas render_eval = render_def swap1_def unit_names_def dict_get_def default_unit_labels_def
  factors_eval to_double_eval fmt_eval

lemma asanyarray_float_ok:
  "NonNumeric \<notin> set number \<Longrightarrow> asanyarray_float number = Inr (map to_float number)"
proof (induction number)
  case Nil
  then show ?case by simp
next
  case (Cons c cs)
  then show ?case by (cases c) (simp_all add: to_float_def)
qed

lemma asanyarray_float_bad:
  "NonNumeric \<in> set number \<Longrightarrow> asanyarray_float number = Inl ConversionError"
proof (induction number)
  case Nil
  then show ?case by simp
next
  case (Cons c cs)
  show ?case
  proof (cases c)
    case (Num v)
    with Cons show ?thesis by simp
  next
    case Null
    with Cons show ?thesis by simp
  next
    case NonNumeric
    then show ?thesis by simp
  qed
qed


lemma index_of_first: "k < index_of xs y \<Longrightarrow> xs ! k \<noteq> y"
proof (induction xs arbitrary: k)
  case Nil
  then show ?case by simp
next
  case (Cons x xs)
  then show ?case by (cases k) (auto split: if_splits)
qed

lemma count_list_0: "k \<notin> set mx \<Longrightarrow> count_list mx k = 0"
  by (induction mx) auto

lemma argmax_bincount:
  assumes ne: "mx \<noteq> []"
  shows "argmax (bincount mx) \<le> Max (set mx)"
    and "count_list mx k \<le> count_list mx (argmax (bincount mx))"
    and "k < argmax (bincount mx) \<Longrightarrow> count_list mx k < count_list mx (argmax (bincount mx))"
proof -
  define M where "M = Max (set mx)"
  define counts where "counts = bincount mx"
  define C where "C = Max (set counts)"
  define b where "b = argmax counts"
  have counts_eq: "counts = map (count_list mx) [0 ..< Suc M]"
    by (simp add: counts_def bincount_def M_def)
  have len: "length counts = Suc M" by (simp add: counts_eq)
  have nth: "\<And>j. j \<le> M \<Longrightarrow> counts ! j = count_list mx j"
    unfolding counts_eq by (metis add_0 le_imp_less_Suc length_upt diff_zero nth_map nth_upt)
  have cne: "set counts \<noteq> {}" using len by auto
  have Cin: "C \<in> set counts" unfolding C_def using Max_in[OF _ cne] by simp
  have b_lt: "b < length counts" unfolding b_def argmax_def C_def[symmetric]
    by (rule index_of_less[OF Cin])
  have b_val: "counts ! b = C" unfolding b_def argmax_def C_def[symmetric]
    by (rule nth_index_of[OF Cin])
  have bM: "b \<le> M" using b_lt len by simp
  have cb: "count_list mx b = C" using nth[OF bM] b_val by simp
  have le_C: "count_list mx j \<le> C" for j
  proof (cases "j \<le> M")
    case True
    then have "count_list mx j \<in> set counts"
      using nth[OF True] len by (metis le_imp_less_Suc nth_mem)
    then show ?thesis unfolding C_def by simp
  next
    case False
    then have "j \<notin> set mx" unfolding M_def using Max_ge[of "set mx" j] by auto
    then show ?thesis by (simp add: count_list_0)
  qed
  show "argmax (bincount mx) \<le> Max (set mx)"
    using bM by (simp add: b_def counts_def M_def)
  show "count_list mx k \<le> count_list mx (argmax (bincount mx))"
    using le_C[of k] cb by (simp add: b_def counts_def)
  show "count_list mx k < count_list mx (argmax (bincount mx))" if "k < argmax (bincount mx)"
  proof -
    have kb: "k < b" using that by (simp add: b_def counts_def)
    then have "counts ! k \<noteq> C"
      unfolding b_def argmax_def C_def[symmetric] by (rule index_of_first)
    moreover have "counts ! k = count_list mx k" using nth[of k] kb bM by simp
    ultimately have "count_list mx k \<noteq> C" by simp
    with le_C[of k] have "count_list mx k < C" by simp
    then show ?thesis using cb by (simp add: b_def counts_def)
  qed
qed

lemma magnitude_le: "magnitude limit v \<le> limit"
  by (simp add: magnitude_def)

lemma bucket_le: "bucket limit v \<le> limit"
  by (cases v) (simp_all add: magnitude_le)

lemma auto_unit_idx_le: "auto_unit_idx limit x \<le> limit"
proof (cases "filter nonzero_finite x = []")
  case True
  then show ?thesis by (simp add: auto_unit_idx_def)
next
  case False
  define mx where "mx = map (bucket limit) (filter nonzero_finite x)"
  have ne: "mx \<noteq> []" using False by (simp add: mx_def)
  have "Max (set mx) \<in> set mx" using ne by (intro Max_in) auto
  then have "Max (set mx) \<le> limit" by (auto simp: mx_def bucket_le)
  with argmax_bincount(1)[OF ne] show ?thesis
    using False by (simp add: auto_unit_idx_def mx_def)
qed

section \<open>Claims\<close>

text \<open>
  C10.  Empty input: each of \<open>npercent\<close>, \<open>nday\<close>, \<open>ndate\<close> and \<open>ntimestamp\<close>, applied to
  an empty batch, returns the empty batch and raises nothing, whatever its options are.
\<close>

theorem C10_empty_batch:
  "npercent [] is_ratio digits show_plus_sign show_growth_factor show_bps = Inr []
   \<and> nday today [] show_relative_day = []
   \<and> ndate [] show_weekday show_month_year = Inr []
   \<and> ntimestamp [] show_weekday show_date show_hours show_minutes show_seconds show_timezone
       = Inr []"
  by (simp add: npercent_def nday_def ndate_def ntimestamp_def)

text \<open>
  C3.  With \<open>show_bps\<close> the percent formatter is claimed to append the basis-points
  annotation exactly once.  The code appends it twice: the statement that adds
  \<open>bps_lbl\<close> to \<open>extras_arr\<close> stands twice in the source.  For the percentage 1.00
  (given as the percentage 1, or as the ratio 0.01) the result carries
  \<open>(+100 bps)\<close> two times.
\<close>

theorem C3_bps_label_twice:
  "npercent [Num (Fin 1)] False 2 True False True = Inr [''+1.00% (+100 bps) (+100 bps)'']
   \<and> npercent [Num (Fin (1 / 100))] True 2 True False True
       = Inr [''+1.00% (+100 bps) (+100 bps)'']"
  by (simp add: npercent_def add_bps_def to_double_eval fmt_eval)

lemma select_unit_custom: "select_unit ''custom'' labels x = Inr (False, 0)"
  by (simp add: select_unit_def)

lemma nnumber_custom:
  assumes "asanyarray_float number = Inr x" and "\<not> both_zeros x"
  shows "nnumber number digits ''custom'' ul pre suf sep =
     Inr (map (\<lambda>v. render digits (unit_names ul) sep pre suf
                 (if nonzero_finite v then bucket 4 v else 0) v) x)"
  using nnumber_render[OF assms(1) select_unit_custom assms(2)] by simp



lemma nnumber_conversion_error:
  "NonNumeric \<in> set number \<Longrightarrow>
     nnumber number digits unit ul pre suf sep = Inl ConversionError"
  by (simp add: nnumber_def asanyarray_float_bad)

lemma nnumber_configuration_error:
  assumes "NonNumeric \<notin> set number"
    and "unit \<noteq> ''auto''" and "unit \<noteq> ''custom''" and "unit \<notin> set (unit_names ul)"
  shows "nnumber number digits unit ul pre suf sep = Inl ConfigurationError"
  using assms by (simp add: nnumber_def asanyarray_float_ok select_unit_def)

text \<open>
  C8.  The claim has the configuration error surface before any element is processed.
  The code coerces the whole batch to floats first (\<open>np.asanyarray\<close>, line 63) and only
  then looks at the unit keyword (lines 67-90): for a batch with a non-numeric element
  and an unrecognized unit, it raises the conversion error.
\<close>

theorem C8_counterexample:
  "''bogus'' \<notin> set (''auto'' # ''custom'' # unit_names default_unit_labels)
   \<and> nnumber [NonNumeric] 1 ''bogus'' default_unit_labels '''' '''' '','' = Inl ConversionError"
  by (simp add: nnumber_conversion_error unit_names_def dict_get_def default_unit_labels_def)

text \<open>
  C8, amended.  A batch with an element that cannot be coerced to a float raises the
  conversion error, whatever the unit keyword is.  When every element can be coerced, an
  unrecognized unit keyword (not \<open>auto\<close>, not \<open>custom\<close>, not one of the five labels) raises
  the configuration error, and no output is produced.  A null element is no error: it
  becomes NaN, and \<open>nnumber([None])\<close> returns \<open>["nan"]\<close>.
\<close>

theorem C8_errors:
  "(NonNumeric \<in> set number \<longrightarrow>
      nnumber number digits unit ul pre suf sep = Inl ConversionError)
   \<and> (NonNumeric \<notin> set number \<and> unit \<noteq> ''auto'' \<and> unit \<noteq> ''custom''
        \<and> unit \<notin> set (unit_names ul) \<longrightarrow>
      nnumber number digits unit ul pre suf sep = Inl ConfigurationError)
   \<and> (NonNumeric \<notin> set number \<longrightarrow>
        asanyarray_float number = Inr (map to_float number) \<and> to_float Null = NaN)
   \<and> nnumber [Null] 1 ''custom'' default_unit_labels '''' '''' '','' = Inr [''nan'']"
proof (intro conjI impI)
  show "nnumber [Null] 1 ''custom'' default_unit_labels '''' '''' '','' = Inr [''nan'']"
  proof -
    have a: "asanyarray_float [Null] = Inr [NaN]" by simp
    have z: "\<not> both_zeros [NaN]" by (simp add: both_zeros_def)
    show ?thesis
      unfolding nnumber_custom[OF a z] by (simp add: render_eval)
  qed
qed (simp_all add: nnumber_conversion_error nnumber_configuration_error asanyarray_float_ok
      to_float_def)

theorem C8_errors_witness:
  "nnumber [Num (Fin 1), NonNumeric] 1 ''bogus'' default_unit_labels '''' '''' '',''
     = Inl ConversionError
   \<and> nnumber [Num (Fin 1), Null] 1 ''bogus'' default_unit_labels '''' '''' '',''
     = Inl ConfigurationError
   \<and> asanyarray_float [Num (Fin 1), Null] = Inr [Fin 1, NaN]"
  using C8_errors[where number = "[Num (Fin 1), NonNumeric]" and digits = 1
      and unit = "''bogus''" and ul = default_unit_labels and pre = "[]" and suf = "[]"
      and sep = "'',''"]
    C8_errors[where number = "[Num (Fin 1), Null]" and digits = 1
      and unit = "''bogus''" and ul = default_unit_labels and pre = "[]" and suf = "[]"
      and sep = "'',''"]
  by (simp add: unit_names_def dict_get_def default_unit_labels_def to_float_def)

lemma factors_pos: "j \<le> 4 \<Longrightarrow> 0 < factors ! j"
proof -
  assume "j \<le> 4"
  then have "j = 0 \<or> j = 1 \<or> j = 2 \<or> j = 3 \<or> j = 4" by auto
  then show ?thesis by (auto simp: factors_eval)
qed

lemma select_unit_idx_le:
  assumes "select_unit unit (unit_names ul) x = Inr (fixed, idx)"
  shows "idx \<le> 4"
proof -
  have len: "length (unit_names ul) = 5" by (simp add: unit_names_def)
  show ?thesis
  proof (cases "unit = ''auto''")
    case True
    with assms have "idx = auto_unit_idx 4 x" by (simp add: select_unit_def len)
    then show ?thesis by (simp add: auto_unit_idx_le)
  next
    case False
    show ?thesis
    proof (cases "unit = ''custom''")
      case True
      with assms False show ?thesis by (simp add: select_unit_def)
    next
      case nc: False
      with assms False have m: "unit \<in> set (unit_names ul)" and i: "idx = index_of (unit_names ul) unit"
        by (auto simp: select_unit_def split: if_splits)
      from index_of_less[OF m] show ?thesis using i len by simp
    qed
  qed
qed

lemma swap1_token:
  "v = NaN \<or> v = PInf \<or> v = NInf \<Longrightarrow>
     swap1 sep (py_format False True digits v) = nonfinite_token v"
  by (auto simp: swap1_def nonfinite_token_def)

lemma fmul_nonfinite:
  "v = NaN \<or> v = PInf \<or> v = NInf \<Longrightarrow> 0 < s \<Longrightarrow> fmul v s = v"
  by auto

text \<open>
  C4.  The claim has every NaN or infinite element rendered as the bare token.  With a
  fixed unit the code appends the unit label to the token as to every other element, and
  a configured prefix is put in front of it.
\<close>

theorem C4_counterexample:
  "nnumber [Num NaN] 1 ''K'' default_unit_labels '''' '''' '','' = Inr [''nan K'']
   \<and> nnumber [Num PInf] 1 ''custom'' default_unit_labels ''$'' '''' '','' = Inr [''$inf'']"
proof -
  have a: "asanyarray_float [Num NaN] = Inr [NaN]" by simp
  have s: "select_unit ''K'' (unit_names default_unit_labels) [NaN] = Inr (True, 1)"
    by (simp add: select_unit_def unit_names_def dict_get_def default_unit_labels_def)
  have z: "\<not> both_zeros [NaN]" by (simp add: both_zeros_def)
  have b: "asanyarray_float [Num PInf] = Inr [PInf]" by simp
  have y: "\<not> both_zeros [PInf]" by (simp add: both_zeros_def)
  show ?thesis
    unfolding nnumber_render[OF a s z] nnumber_custom[OF b y]
    by (simp add: render_eval)
qed

text \<open>
  C4, amended.  For every NaN or infinite element the number part of the output is the
  literal token \<open>nan\<close>, \<open>inf\<close> or \<open>-inf\<close> (sign preserved, no grouping, no decimals, whatever
  the separator is).  In unit mode \<open>custom\<close> the element gets no unit label; with a fixed
  label or in mode \<open>auto\<close> the label of the selected unit follows the token as it follows
  every other element; a configured prefix and suffix are wrapped around the result.  The
  output is the bare token when the mode is \<open>custom\<close> and prefix and suffix are empty.
\<close>

theorem C4_nonfinite:
  assumes "asanyarray_float number = Inr x"
    and "select_unit unit (unit_names ul) x = Inr (fixed, idx)"
    and "i < length x"
    and "x ! i = NaN \<or> x ! i = PInf \<or> x ! i = NInf"
  shows "\<exists>out. nnumber number digits unit ul pre suf sep = Inr out \<and> length out = length x
     \<and> out ! i =
         (let s = nonfinite_token (x ! i) @
                  (if fixed \<and> 0 < length (unit_names ul ! idx)
                   then '' '' @ unit_names ul ! idx else '''')
          in if 0 < length pre \<or> 0 < length suf then pre @ s @ suf else s)
     \<and> (unit = ''custom'' \<and> pre = '''' \<and> suf = '''' \<longrightarrow> out ! i = nonfinite_token (x ! i))"
proof -
  define v where "v = x ! i"
  have nf: "v = NaN \<or> v = PInf \<or> v = NInf"
    using assms(4) by (simp add: v_def)
  then have nz: "\<not> nonzero_finite v" and n0: "v \<noteq> Fin 0" and n1: "v \<noteq> NegZero"
    by auto
  have vx: "v \<in> set x" using assms(3) by (simp add: v_def)
  have fe: "first_equal x v = v" by (rule first_equal_nonzero[OF vx n0 n1])
  define j where "j = (if fixed then idx else 0)"
  have j4: "j \<le> 4" using select_unit_idx_le[OF assms(2)] by (simp add: j_def)
  have lab0: "unit_names ul ! 0 = []" by (simp add: unit_names_def)
  define out where "out = map (\<lambda>v. render digits (unit_names ul) sep pre suf
               (if fixed then idx
                else if nonzero_finite (first_equal x v) then bucket 4 (first_equal x v) else 0)
               (first_equal x v)) x"
  have res: "nnumber number digits unit ul pre suf sep = Inr out"
    unfolding out_def by (rule nnumber_first_equal[OF assms(1,2)])
  have "out ! i = render digits (unit_names ul) sep pre suf j v"
    using assms(3) nz fe by (simp add: out_def v_def[symmetric] j_def)
  also have "\<dots> = (let s = nonfinite_token v @
                  (if fixed \<and> 0 < length (unit_names ul ! idx)
                   then '' '' @ unit_names ul ! idx else '''')
          in if 0 < length pre \<or> 0 < length suf then pre @ s @ suf else s)"
  proof -
    have f: "fmul v (factors ! j) = v" by (rule fmul_nonfinite[OF nf factors_pos[OF j4]])
    have t: "swap1 sep (py_format False True digits v) = nonfinite_token v"
      by (rule swap1_token[OF nf])
    have l: "(if 0 < length (unit_names ul ! j) then '' '' @ unit_names ul ! j else [])
           = (if fixed \<and> 0 < length (unit_names ul ! idx) then '' '' @ unit_names ul ! idx else [])"
      using lab0 by (cases fixed) (simp_all add: j_def)
    show ?thesis
      unfolding render_def Let_def f t l by (rule refl)
  qed
  finally have elem: "out ! i = (let s = nonfinite_token v @
                  (if fixed \<and> 0 < length (unit_names ul ! idx)
                   then '' '' @ unit_names ul ! idx else '''')
          in if 0 < length pre \<or> 0 < length suf then pre @ s @ suf else s)" .
  have bare: "out ! i = nonfinite_token v" if "unit = ''custom''" "pre = ''''" "suf = ''''"
  proof -
    from that(1) assms(2) have "\<not> fixed" by (simp add: select_unit_def)
    with elem that show ?thesis by (simp add: Let_def)
  qed
  show ?thesis
    using res elem bare by (auto simp: out_def v_def)
qed

theorem C4_nonfinite_witness:
  "\<exists>out. nnumber [Num (Fin 5), Num NInf] 1 ''Mn'' default_unit_labels ''$'' '''' '','' = Inr out
     \<and> length out = 2 \<and> out ! 1 = ''$-inf Mn''"
proof -
  have a: "asanyarray_float [Num (Fin 5), Num NInf] = Inr [Fin 5, NInf]" by simp
  have s: "select_unit ''Mn'' (unit_names default_unit_labels) [Fin 5, NInf] = Inr (True, 2)"
    by (simp add: select_unit_def unit_names_def dict_get_def default_unit_labels_def)
  have i: "1 < length [Fin 5, NInf]" by simp
  have n: "[Fin 5, NInf] ! 1 = NaN \<or> [Fin 5, NInf] ! 1 = PInf \<or> [Fin 5, NInf] ! 1 = NInf"
    by simp
  show ?thesis
    using C4_nonfinite[OF a s i n, where digits = 1 and pre = "''$''" and suf = "[]" and sep = "'',''"]
    by (auto simp: nonfinite_token_def unit_names_def dict_get_def default_unit_labels_def)
qed


















section \<open>Lemmas: the calendar\<close>

lemma days_to_yearsdays_unfold:
  "days_to_yearsdays n =
     (let k = (n - 10957) div 146097; D0 = (n - 10957) mod 146097;
          q1 = (D0 - 1) div 36524; D1 = (D0 - 1) mod 36524;
          q2 = (D1 + 1) div 1461; D2 = (D1 + 1) mod 1461
      in if 366 \<le> D0 then
           if 365 \<le> D1 then
             if 366 \<le> D2
             then (400 * k + 100 * q1 + 4 * q2 + (D2 - 1) div 365 + 2000, (D2 - 1) mod 365)
             else (400 * k + 100 * q1 + 4 * q2 + 2000, D2)
           else (400 * k + 100 * q1 + 2000, D1)
         else (400 * k + 2000, D0))"
  by (simp add: days_to_yearsdays_def Let_def)


lemma days_to_yearsdays_range:
  assumes "days_to_yearsdays n = (y, yd)"
  shows "0 \<le> yd \<and> yd < (if is_leapyear y then 366 else 365)"
proof -
  define k where "k = (n - 10957) div 146097"
  define D0 where "D0 = (n - 10957) mod 146097"
  define q1 where "q1 = (D0 - 1) div 36524"
  define D1 where "D1 = (D0 - 1) mod 36524"
  define q2 where "q2 = (D1 + 1) div 1461"
  define D2 where "D2 = (D1 + 1) mod 1461"
  have eq: "days_to_yearsdays n =
     (if 366 \<le> D0 then
        if 365 \<le> D1 then
          if 366 \<le> D2
          then (400 * k + 100 * q1 + 4 * q2 + (D2 - 1) div 365 + 2000, (D2 - 1) mod 365)
          else (400 * k + 100 * q1 + 4 * q2 + 2000, D2)
        else (400 * k + 100 * q1 + 2000, D1)
      else (400 * k + 2000, D0))"
    unfolding days_to_yearsdays_unfold[of n] Let_def D2_def q2_def D1_def q1_def D0_def k_def
    by (rule refl)
  have D0r: "0 \<le> D0" "D0 < 146097" by (simp_all add: D0_def)
  have D1r: "0 \<le> D1" "D1 < 36524" by (simp_all add: D1_def)
  have D2r: "0 \<le> D2" "D2 < 1461" by (simp_all add: D2_def)
  have m365: "0 \<le> (D2 - 1) mod 365" "(D2 - 1) mod 365 < 365" by simp_all
  show ?thesis
  proof (cases "366 \<le> D0")
    case False
    with assms eq have y: "y = 400 * (k + 5)" and yd: "yd = D0" by simp_all
    have "y mod 400 = 0" unfolding y by simp
    then have "is_leapyear y" by (simp add: is_leapyear_def)
    then show ?thesis using D0r False yd by simp
  next
    case A: True
    show ?thesis
    proof (cases "365 \<le> D1")
      case False
      with assms eq A have "yd = D1" by simp
      then show ?thesis using D1r False by simp
    next
      case B: True
      show ?thesis
      proof (cases "366 \<le> D2")
        case True
        with assms eq A B have "yd = (D2 - 1) mod 365" by simp
        moreover have "(D2 - 1) mod 365 < 366"
          using pos_mod_bound[of 365 "D2 - 1"] by linarith
        ultimately show ?thesis by simp
      next
        case False
        with assms eq A B have y: "y = 400 * k + 100 * q1 + 4 * q2 + 2000" and yd: "yd = D2"
          by simp_all
        have dm: "D1 + 1 = 1461 * q2 + D2"
          unfolding q2_def D2_def by simp
        have q2lo: "1 \<le> q2" using dm B D2r False by linarith
        have q2hi: "q2 \<le> 24" using dm D1r D2r by linarith
        have y4: "y = 4 * (100 * k + 25 * q1 + q2 + 500)" using y by simp
        have y100: "y = 4 * q2 + 100 * (4 * k + q1 + 20)" using y by simp
        have "y mod 4 = 0" unfolding y4 by simp
        moreover have m100: "y mod 100 = 4 * q2"
        proof -
          have "y mod 100 = (4 * q2) mod 100"
            unfolding y100 by (rule mod_mult_self2)
          also have "\<dots> = 4 * q2"
            using q2lo q2hi by (intro mod_pos_pos_trivial) linarith+
          finally show ?thesis .
        qed
        then have n100: "y mod 100 \<noteq> 0" using q2lo by simp
        moreover have "y mod 400 \<noteq> 0"
        proof
          assume "y mod 400 = 0"
          then have "y mod 400 mod 100 = 0" by simp
          then have "y mod 100 = 0" by (simp add: mod_mod_cancel)
          with n100 show False by simp
        qed
        ultimately have "is_leapyear y" by (simp add: is_leapyear_def)
        then show ?thesis using yd D2r False by simp
      qed
    qed
  qed
qed


lemma month_and_day_range:
  assumes "0 \<le> yd" and "yd < (if leap then 366 else 365)"
    and "month_and_day (month_lengths leap) 1 yd = (m, d)"
  shows "1 \<le> m \<and> m \<le> 12 \<and> 1 \<le> d \<and> d \<le> 31"
  using assms by (cases leap) (auto simp: month_lengths_def split: if_splits)

lemma civil_from_days_range:
  assumes "civil_from_days n = (y, m, d)"
  shows "1 \<le> m \<and> m \<le> 12 \<and> 1 \<le> d \<and> d \<le> 31"
proof -
  obtain y' yd where yy: "days_to_yearsdays n = (y', yd)" by (cases "days_to_yearsdays n")
  obtain m' d' where md: "month_and_day (month_lengths (is_leapyear y')) 1 yd = (m', d')"
    by (cases "month_and_day (month_lengths (is_leapyear y')) 1 yd")
  from assms yy md have "m = m'" "d = d'" by (simp_all add: civil_from_days_def)
  with month_and_day_range[OF _ _ md] days_to_yearsdays_range[OF yy] show ?thesis by simp
qed

section \<open>Lemmas: digits, slices and casts\<close>

lemma dec_digits_1: "n < 10 \<Longrightarrow> dec_digits n = [digit_char n]"
  by (subst dec_digits.simps) simp

lemma dec_digits_2: "10 \<le> n \<Longrightarrow> n < 100 \<Longrightarrow>
    dec_digits n = [digit_char (n div 10), digit_char (n mod 10)]"
  by (subst dec_digits.simps) (simp add: dec_digits_1)

lemma dec_digits_step: "10 \<le> n \<Longrightarrow> dec_digits n = dec_digits (n div 10) @ [digit_char (n mod 10)]"
  by (subst dec_digits.simps) simp

lemma length_dec_digits_le4: "n < 10000 \<Longrightarrow> length (dec_digits n) \<le> 4"
proof -
  assume n: "n < 10000"
  have l1: "length (dec_digits m) = 1" if "m < 10" for m using that by (simp add: dec_digits_1)
  have l2: "length (dec_digits m) \<le> 2" if "m < 100" for m
    using that l1[of m] l1[of "m div 10"] dec_digits_step[of m] by (cases "m < 10") auto
  have l3: "length (dec_digits m) \<le> 3" if "m < 1000" for m
    using that l1[of m] l2[of "m div 10"] dec_digits_step[of m] by (cases "m < 10") auto
  show ?thesis
    using n l1[of n] l3[of "n div 10"] dec_digits_step[of n] by (cases "n < 10") auto
qed

lemma length_zero_pad4: "0 \<le> y \<Longrightarrow> y \<le> 9999 \<Longrightarrow> length (zero_pad 4 y) = 4"
  using length_dec_digits_le4[of "nat y"] by (simp add: zero_pad_def pad_left_def)

lemma zero_pad2: "0 \<le> n \<Longrightarrow> n \<le> 99 \<Longrightarrow>
    zero_pad 2 n = [digit_char (nat n div 10), digit_char (nat n mod 10)]"
proof -
  assume a: "0 \<le> n" "n \<le> 99"
  show ?thesis
  proof (cases "nat n < 10")
    case True
    then show ?thesis
      by (simp add: zero_pad_def pad_left_def dec_digits_1 digit_char_def)
  next
    case False
    then have "10 \<le> nat n" "nat n < 100" using a by linarith+
    then show ?thesis by (simp add: zero_pad_def pad_left_def dec_digits_2)
  qed
qed

lemma length_zero_pad2: "0 \<le> n \<Longrightarrow> n \<le> 99 \<Longrightarrow> length (zero_pad 2 n) = 2"
  by (simp add: zero_pad2)

lemma digit_cases: "k < 10 \<Longrightarrow> k = 0 \<or> k = 1 \<or> k = 2 \<or> k = 3 \<or> k = 4 \<or> k = 5 \<or> k = 6
    \<or> k = 7 \<or> k = 8 \<or> k = (9::nat)"
  by arith

lemma digit_of_digit_char: "k < 10 \<Longrightarrow> digit_of (digit_char k) = Some k"
  using digit_cases[of k] by (auto simp: digit_of_def digit_char_def)

lemma digit_char_not_sign: "k < 10 \<Longrightarrow> digit_char k \<noteq> CHR ''-'' \<and> digit_char k \<noteq> CHR ''+''"
  using digit_cases[of k] by (auto simp: digit_char_def)

lemma parse_int_zero_pad2: "0 \<le> n \<Longrightarrow> n \<le> 99 \<Longrightarrow> parse_int (zero_pad 2 n) = Inr n"
proof -
  assume a: "0 \<le> n" "n \<le> 99"
  define hi where "hi = nat n div 10"
  define lo where "lo = nat n mod 10"
  have "nat n < 10 * 10" using a by linarith
  then have hi: "hi < 10" unfolding hi_def by (rule less_mult_imp_div_less)
  have lo: "lo < 10" by (simp add: lo_def)
  have n: "n = int (10 * hi + lo)" using a by (simp add: hi_def lo_def)
  show ?thesis
    unfolding zero_pad2[OF a] hi_def[symmetric] lo_def[symmetric]
    using digit_of_digit_char[OF hi] digit_of_digit_char[OF lo] digit_char_not_sign[OF hi] n
    by (simp add: parse_int_def)
qed

lemma slice_mid: "length p = a \<Longrightarrow> length s = b - a \<Longrightarrow> slice a b (p @ s @ r) = s"
  by (simp add: slice_def)

lemma slice_start: "length s = b \<Longrightarrow> slice 0 b (s @ r) = s"
  by (simp add: slice_def)

section \<open>Lemmas: masks and the weekday formatter\<close>








lemma nday_unconvertible:
  "Unconvertible \<in> set date \<Longrightarrow>
     nday today date show_relative_day = replicate (length date) ''NaT''"
  by (auto simp: nday_def astype_datetime64_def)


section \<open>Claims on dates\<close>





end
